theory Spec2Isabelle
  imports Main "HOL-Library.AList"
begin

section \<open>Errors and configuration\<close>

text \<open>
  The exceptions of \<^verbatim>\<open>nova.network.exception\<close> that \<^verbatim>\<open>nova/network/model.py\<close> raises,
  and the Python built-in exceptions its calls can raise (indexing an \<^verbatim>\<open>IPy.IP\<close> out of
  range, reading a missing key of a model's state, using \<^verbatim>\<open>None\<close> as an object).
\<close>

datatype error =
    NoMoreAddresses
  | AddressNotAllocated
  | AddressAlreadyAssociated
  | AddressNotAssociated
  | IndexError
  | KeyError
  | AttributeError
  | TypeError

text \<open>The integer flags the model reads (\<^verbatim>\<open>FLAGS.vlan_start\<close>, ...).\<close>

record flags =
  vlan_start :: int
  vlan_end :: int
  cnt_vpn_clients :: int

text \<open>Python's \<^verbatim>\<open>range(a, b)\<close>: the integers from \<open>a\<close> up to \<open>b - 1\<close>, ascending.\<close>

definition py_range :: "int \<Rightarrow> int \<Rightarrow> int list" where
  "py_range a b = [a..b - 1]"


section \<open>The VLAN allocator\<close>

text \<open>
  \<^verbatim>\<open>class Vlan\<close>: a project id and a vlan id. All of them live in one Redis hash
  (project id to vlan id), here an association list updated with \<open>AList.update\<close>
  (\<^verbatim>\<open>hset\<close>) and \<open>AList.delete\<close> (\<^verbatim>\<open>hdel\<close>) and read with \<open>map_of\<close> (\<^verbatim>\<open>hget\<close>).
  Redis holds the vlan id as the decimal string of the integer; the string is modelled
  by the integer it denotes.
\<close>

record Vlan =
  project_id :: string
  vlan_id :: int

type_synonym vlans = "(string \<times> int) list"

definition Vlan_save :: "Vlan \<Rightarrow> vlans \<Rightarrow> vlans" where
  "Vlan_save v tbl = AList.update (project_id v) (vlan_id v) tbl"

definition Vlan_destroy :: "Vlan \<Rightarrow> vlans \<Rightarrow> vlans" where
  "Vlan_destroy v tbl = AList.delete (project_id v) tbl"

definition Vlan_create :: "string \<Rightarrow> int \<Rightarrow> vlans \<Rightarrow> Vlan \<times> vlans" where
  "Vlan_create project vl tbl =
     (let instance = \<lparr>project_id = project, vlan_id = vl\<rparr>
      in (instance, Vlan_save instance tbl))"

definition Vlan_lookup :: "vlans \<Rightarrow> string \<Rightarrow> Vlan option" where
  "Vlan_lookup tbl project =
     (case map_of tbl project of
        Some vl \<Rightarrow> Some \<lparr>project_id = project, vlan_id = vl\<rparr>
      | None \<Rightarrow> None)"

text \<open>
  \<^verbatim>\<open>Vlan.dict_by_vlan\<close>: the hash turned round, vlan id to project id, filled entry by
  entry in the order the hash is walked, a later entry overwriting an earlier one.
\<close>

definition dict_by_vlan :: "vlans \<Rightarrow> (int \<times> string) list" where
  "dict_by_vlan hashset =
     foldl (\<lambda>retvals (val, vl). AList.update vl val retvals) [] hashset"

text \<open>
  \<^verbatim>\<open>manager.AuthManager().get_project(id)\<close> is outside this module; the projects that
  exist are a parameter, and the lookup is truthy exactly for them.
\<close>

definition get_project :: "string list \<Rightarrow> string \<Rightarrow> bool" where
  "get_project projects pid = (pid \<in> set projects)"

text \<open>
  The \<^verbatim>\<open>for vnum in range(FLAGS.vlan_start, FLAGS.vlan_end)\<close> loop of
  \<^verbatim>\<open>get_vlan_for_project\<close>, over the ids still to visit. It returns at the first id that
  is unknown or whose owner no longer exists, and raises
  \<^verbatim>\<open>AddressNotAllocated("Out of VLANs")\<close> when the range is used up.
\<close>

fun scan_vlans ::
  "string list \<Rightarrow> (int \<times> string) list \<Rightarrow> string \<Rightarrow> int list \<Rightarrow> vlans
     \<Rightarrow> (error + Vlan) \<times> vlans" where
  "scan_vlans projects known_vlans project [] tbl = (Inl AddressNotAllocated, tbl)"
| "scan_vlans projects known_vlans project (vnum # vnums) tbl =
     (case map_of known_vlans vnum of
        None \<Rightarrow> (case Vlan_create project vnum tbl of (v, tbl') \<Rightarrow> (Inr v, tbl'))
      | Some old_project_id \<Rightarrow>
          if \<not> get_project projects old_project_id then
            (case Vlan_lookup tbl old_project_id of
               Some v \<Rightarrow>
                 (let tbl1 = Vlan_destroy v tbl;
                      v' = v\<lparr>project_id := project\<rparr>
                  in (Inr v', Vlan_save v' tbl1))
             | None \<Rightarrow> (case Vlan_create project vnum tbl of (v, tbl') \<Rightarrow> (Inr v, tbl')))
          else scan_vlans projects known_vlans project vnums tbl)"

definition get_vlan_for_project ::
  "flags \<Rightarrow> string list \<Rightarrow> string \<Rightarrow> vlans \<Rightarrow> (error + Vlan) \<times> vlans" where
  "get_vlan_for_project fl projects project tbl =
     (case Vlan_lookup tbl project of
        Some v \<Rightarrow> (Inr v, tbl)
      | None \<Rightarrow>
          scan_vlans projects (dict_by_vlan tbl) project
            (py_range (vlan_start fl) (vlan_end fl)) tbl)"

text \<open>
  A run of allocator calls, each by some project and each seeing the projects that
  exist when it is made; a call that raises leaves the table as it was.
\<close>

fun vlan_calls :: "flags \<Rightarrow> (string \<times> string list) list \<Rightarrow> vlans \<Rightarrow> vlans" where
  "vlan_calls fl [] tbl = tbl"
| "vlan_calls fl ((q, projects) # cs) tbl =
     vlan_calls fl cs (snd (get_vlan_for_project fl projects q tbl))"


section \<open>Networks, leases and their activation\<close>

subsection \<open>Addresses\<close>

text \<open>
  An address is the integer value of the IP address. The source holds addresses as the
  strings \<^verbatim>\<open>str(self.network[idx])\<close>; distinct addresses have distinct strings, so the
  string is modelled by the address it denotes.

  \<^verbatim>\<open>IPy.IP\<close> (an external library): a block of \<open>len\<close> consecutive addresses from
  \<open>ip\<close>. Indexing counts from the end for a negative index and raises \<^verbatim>\<open>IndexError\<close>
  out of range.
\<close>

type_synonym address = int

record IP =
  ip :: int
  len :: nat

definition getitem :: "IP \<Rightarrow> int \<Rightarrow> error + address" where
  "getitem nw key =
     (if key < 0 then
        (if \<bar>key\<bar> \<le> int (len nw) then Inr (ip nw + (int (len nw) - \<bar>key\<bar>))
         else Inl IndexError)
      else if key \<ge> int (len nw) then Inl IndexError
      else Inr (ip nw + key))"

subsection \<open>The network classes and the stored state\<close>

text \<open>
  The four classes of the hierarchy \<^verbatim>\<open>BaseNetwork\<close>, \<^verbatim>\<open>BridgedNetwork\<close>,
  \<^verbatim>\<open>DHCPNetwork\<close>, \<^verbatim>\<open>PublicNetworkController\<close>; a method that a subclass overrides
  becomes a function that looks at the class.

  \<open>project_obj\<close> is the property \<^verbatim>\<open>self.project\<close>, that is
  \<^verbatim>\<open>manager.AuthManager().get_project(self['project_id'])\<close>: the project with its
  \<^verbatim>\<open>vpn_ip\<close> and \<^verbatim>\<open>vpn_port\<close>, or \<open>None\<close> when the project does not exist. Reading
  an attribute of \<^verbatim>\<open>None\<close> raises \<^verbatim>\<open>AttributeError\<close>.
\<close>

datatype kind = BaseNetwork | BridgedNetwork | DHCPNetwork | PublicNetworkController

record Project =
  vpn_ip :: string
  vpn_port :: int

record Network =
  kind :: kind
  network :: IP
  project_obj :: "Project option"

definition NUM_STATIC_IPS :: int where
  "NUM_STATIC_IPS = 3"

definition DEFAULT_PORTS :: "(string \<times> int) list" where
  "DEFAULT_PORTS = [(''tcp'', 80), (''tcp'', 22), (''udp'', 1194), (''tcp'', 443)]"

text \<open>
  The firewall rules the module formats, one constructor per format string:
  \<^item> \<open>Forward_vpn a\<close>: \<^verbatim>\<open>FORWARD -d a -p udp --dport 1194 -j ACCEPT\<close>
  \<^item> \<open>Prerouting_vpn vip vport a\<close>:
    \<^verbatim>\<open>PREROUTING -t nat -d vip -p udp --dport vport -j DNAT --to a:1194\<close>
  \<^item> \<open>Prerouting_dnat pub priv\<close>: \<^verbatim>\<open>PREROUTING -t nat -d pub -j DNAT --to priv\<close>
  \<^item> \<open>Postrouting_snat priv pub\<close>: \<^verbatim>\<open>POSTROUTING -t nat -s priv -j SNAT --to pub\<close>
  \<^item> \<open>Forward_icmp priv\<close>: \<^verbatim>\<open>FORWARD -d priv -p icmp -j ACCEPT\<close>
  \<^item> \<open>Forward_port priv proto port\<close>: \<^verbatim>\<open>FORWARD -d priv -p proto --dport port -j ACCEPT\<close>
\<close>

datatype rule =
    Forward_vpn address
  | Prerouting_vpn string int address
  | Prerouting_dnat address string
  | Postrouting_snat string address
  | Forward_icmp string
  | Forward_port string string int

text \<open>
  What one network reads and writes: its Redis hash of leases \<open>hosts\<close> (address to
  target), the stored \<^verbatim>\<open>PublicAddress\<close> records (address to the record's fields; the
  field \<^verbatim>\<open>'address'\<close>, always the key itself, is left out), and the state of the network
  backend: whether the VLAN interface and the bridge exist, the lease set the DHCP
  server serves (\<open>None\<close> when it is not running), the firewall rules in place and the
  public addresses bound to the public interface.
\<close>

record state =
  hosts :: "(address \<times> string) list"
  addresses :: "(address \<times> (string \<times> string) list) list"
  vlan_created :: bool
  bridge_created :: bool
  dnsmasq :: "(address \<times> string) list option"
  rules :: "rule list"
  public_ips :: "address list"

definition empty_state :: state where
  "empty_state =
     \<lparr>hosts = [], addresses = [], vlan_created = False, bridge_created = False,
      dnsmasq = None, rules = [], public_ips = []\<rparr>"

subsection \<open>The network backend\<close>

text \<open>
  Modelled from the spec: \<^verbatim>\<open>nova/network/linux_net.py\<close> is missing. Section 6 of the
  specification gives its primitives: create the VLAN interface and the bridge
  (idempotent), start the DHCP server with the current lease set (a restart when it
  runs already), stop it, confirm a rule (ensure present), remove a rule (ensure
  absent), bind and unbind a public address.
\<close>

definition vlan_create :: "state \<Rightarrow> state" where
  "vlan_create s = s\<lparr>vlan_created := True\<rparr>"

definition bridge_create :: "state \<Rightarrow> state" where
  "bridge_create s = s\<lparr>bridge_created := True\<rparr>"

definition start_dnsmasq :: "state \<Rightarrow> state" where
  "start_dnsmasq s = s\<lparr>dnsmasq := Some (hosts s)\<rparr>"

definition stop_dnsmasq :: "state \<Rightarrow> state" where
  "stop_dnsmasq s = s\<lparr>dnsmasq := None\<rparr>"

definition confirm_rule :: "rule \<Rightarrow> state \<Rightarrow> state" where
  "confirm_rule r s = (if r \<in> set (rules s) then s else s\<lparr>rules := rules s @ [r]\<rparr>)"

definition remove_rule :: "rule \<Rightarrow> state \<Rightarrow> state" where
  "remove_rule r s = s\<lparr>rules := removeAll r (rules s)\<rparr>"

definition bind_public_ip :: "address \<Rightarrow> state \<Rightarrow> state" where
  "bind_public_ip a s =
     (if a \<in> set (public_ips s) then s else s\<lparr>public_ips := public_ips s @ [a]\<rparr>)"

definition unbind_public_ip :: "address \<Rightarrow> state \<Rightarrow> state" where
  "unbind_public_ip a s = s\<lparr>public_ips := removeAll a (public_ips s)\<rparr>"

subsection \<open>Public address records\<close>

text \<open>
  \<^verbatim>\<open>PublicAddress(address)\<close> loads the stored fields, or starts from the default state
  when nothing is stored; \<^verbatim>\<open>addr.get(key, default)\<close> is \<open>dict_get\<close>. The time stamp
  that saving a new record adds is left out: nothing in the module reads it.
\<close>

definition PublicAddress :: "address \<Rightarrow> state \<Rightarrow> (string \<times> string) list" where
  "PublicAddress a s = (case map_of (addresses s) a of Some st \<Rightarrow> st | None \<Rightarrow> [])"

definition dict_get :: "(string \<times> string) list \<Rightarrow> string \<Rightarrow> string \<Rightarrow> string" where
  "dict_get st k d = (case map_of st k of Some v \<Rightarrow> v | None \<Rightarrow> d)"

definition PublicAddress_save :: "address \<Rightarrow> (string \<times> string) list \<Rightarrow> state \<Rightarrow> state" where
  "PublicAddress_save a st s = s\<lparr>addresses := AList.update a st (addresses s)\<rparr>"

definition PublicAddress_destroy :: "address \<Rightarrow> state \<Rightarrow> state" where
  "PublicAddress_destroy a s = s\<lparr>addresses := AList.delete a (addresses s)\<rparr>"

definition PublicAddress_create :: "string \<Rightarrow> string \<Rightarrow> address \<Rightarrow> state \<Rightarrow> state" where
  "PublicAddress_create user project a s =
     (let addr0 = PublicAddress a s;
          addr1 = AList.update ''user_id'' user addr0;
          addr2 = AList.update ''project_id'' project addr1;
          addr3 = AList.update ''instance_id'' ''available'' addr2;
          addr4 = AList.update ''private_ip'' ''available'' addr3
      in PublicAddress_save a addr4 s)"

subsection \<open>Leases\<close>

definition assigned :: "state \<Rightarrow> address list" where
  "assigned s = map fst (hosts s)"

text \<open>\<^verbatim>\<open>_add_host\<close> and \<^verbatim>\<open>_rem_host\<close>, with the overrides of the public controller.\<close>

definition add_host ::
  "Network \<Rightarrow> string \<Rightarrow> string \<Rightarrow> address \<Rightarrow> string \<Rightarrow> state \<Rightarrow> state" where
  "add_host net user project host target s =
     (if kind net = PublicNetworkController then
        PublicAddress_create user project host (s\<lparr>hosts := AList.update host project (hosts s)\<rparr>)
      else s\<lparr>hosts := AList.update host target (hosts s)\<rparr>)"

definition rem_host :: "Network \<Rightarrow> address \<Rightarrow> state \<Rightarrow> state" where
  "rem_host net host s =
     (if kind net = PublicNetworkController then
        (PublicAddress_destroy host s)\<lparr>hosts := AList.delete host (hosts s)\<rparr>
      else s\<lparr>hosts := AList.delete host (hosts s)\<rparr>)"

text \<open>
  The generator \<^verbatim>\<open>available\<close>: what it yields, in order. An index out of the block
  raises inside the generator, which ends it; the exception is then the last element.
\<close>

fun available_from :: "IP \<Rightarrow> address list \<Rightarrow> int list \<Rightarrow> (error + address) list" where
  "available_from nw keys [] = []"
| "available_from nw keys (idx # idxs) =
     (case getitem nw idx of
        Inl e \<Rightarrow> [Inl e]
      | Inr a \<Rightarrow>
          if a \<notin> set keys then Inr a # available_from nw keys idxs
          else available_from nw keys idxs)"

definition available :: "Network \<Rightarrow> flags \<Rightarrow> state \<Rightarrow> (error + address) list" where
  "available net fl s =
     (if kind net = PublicNetworkController then
        available_from (network net) (map fst (hosts s))
          (py_range 2 (int (len (network net)) - 1))
      else
        available_from (network net) (map fst (hosts s))
          (py_range NUM_STATIC_IPS (int (len (network net)) - (1 + cnt_vpn_clients fl))))"

subsection \<open>Activation\<close>

definition express_Bridged :: "state \<Rightarrow> state" where
  "express_Bridged s = bridge_create (vlan_create s)"

text \<open>
  \<^verbatim>\<open>express_cloudpipe\<close>: the third address of the subnet is read first, the forward
  rule is confirmed, and only then is the project read for the second rule.
\<close>

definition express_cloudpipe :: "Network \<Rightarrow> state \<Rightarrow> (error + unit) \<times> state" where
  "express_cloudpipe net s =
     (case getitem (network net) 2 of
        Inl e \<Rightarrow> (Inl e, s)
      | Inr private_ip \<Rightarrow>
          (let s1 = confirm_rule (Forward_vpn private_ip) s
           in case project_obj net of
                None \<Rightarrow> (Inl AttributeError, s1)
              | Some p \<Rightarrow>
                  (Inr (),
                   confirm_rule (Prerouting_vpn (vpn_ip p) (vpn_port p) private_ip) s1)))"

definition express_DHCP :: "Network \<Rightarrow> state \<Rightarrow> (error + unit) \<times> state" where
  "express_DHCP net s =
     (let s1 = express_Bridged s;
          s2 = (if length (assigned s1) > 0 then start_dnsmasq s1 else s1)
      in express_cloudpipe net s2)"

definition deexpress_DHCP :: "state \<Rightarrow> state" where
  "deexpress_DHCP s =
     (if length (assigned s) = 0 then stop_dnsmasq s else start_dnsmasq s)"

definition get_host :: "address \<Rightarrow> state \<Rightarrow> (string \<times> string) list option" where
  "get_host host s = (if host \<in> set (assigned s) then Some (PublicAddress host s) else None)"

text \<open>The body of the loop of \<^verbatim>\<open>PublicNetworkController.express\<close>, for one record.\<close>

definition express_addr :: "address \<Rightarrow> (string \<times> string) list \<Rightarrow> state \<Rightarrow> state" where
  "express_addr public_ip addr s =
     (if dict_get addr ''private_ip'' ''available'' = ''available'' then s
      else
        (let private_ip = dict_get addr ''private_ip'' ''available'';
             s1 = bind_public_ip public_ip s;
             s2 = confirm_rule (Prerouting_dnat public_ip private_ip) s1;
             s3 = confirm_rule (Postrouting_snat private_ip public_ip) s2;
             s4 = confirm_rule (Forward_icmp private_ip) s3
         in foldl (\<lambda>s' (protocol, port). confirm_rule (Forward_port private_ip protocol port) s')
              s4 DEFAULT_PORTS))"

definition express_Public :: "address option \<Rightarrow> state \<Rightarrow> (error + unit) \<times> state" where
  "express_Public address s =
     (case address of
        None \<Rightarrow> (Inr (), foldl (\<lambda>s' a. express_addr a (PublicAddress a s') s') s (assigned s))
      | Some a \<Rightarrow>
          (case get_host a s of
             None \<Rightarrow> (Inl AttributeError, s)
           | Some addr \<Rightarrow> (Inr (), express_addr a addr s)))"

definition deexpress_Public :: "address \<Rightarrow> state \<Rightarrow> (error + unit) \<times> state" where
  "deexpress_Public a s =
     (case get_host a s of
        None \<Rightarrow> (Inl TypeError, s)
      | Some addr \<Rightarrow>
          (case map_of addr ''private_ip'' of
             None \<Rightarrow> (Inl KeyError, s)
           | Some private_ip \<Rightarrow>
               (let s1 = unbind_public_ip a s;
                    s2 = remove_rule (Prerouting_dnat a private_ip) s1;
                    s3 = remove_rule (Postrouting_snat private_ip a) s2;
                    s4 = remove_rule (Forward_icmp private_ip) s3
                in (Inr (),
                    foldl (\<lambda>s' (protocol, port). remove_rule (Forward_port private_ip protocol port) s')
                      s4 DEFAULT_PORTS))))"

definition express :: "Network \<Rightarrow> address option \<Rightarrow> state \<Rightarrow> (error + unit) \<times> state" where
  "express net address s =
     (case kind net of
        BaseNetwork \<Rightarrow> (Inr (), s)
      | BridgedNetwork \<Rightarrow> (Inr (), express_Bridged s)
      | DHCPNetwork \<Rightarrow> express_DHCP net s
      | PublicNetworkController \<Rightarrow> express_Public address s)"

definition deexpress :: "Network \<Rightarrow> address \<Rightarrow> state \<Rightarrow> (error + unit) \<times> state" where
  "deexpress net a s =
     (case kind net of
        BaseNetwork \<Rightarrow> (Inr (), s)
      | BridgedNetwork \<Rightarrow> (Inr (), s)
      | DHCPNetwork \<Rightarrow> (Inr (), deexpress_DHCP s)
      | PublicNetworkController \<Rightarrow> deexpress_Public a s)"

subsection \<open>Allocation and release\<close>

definition allocate_ip ::
  "Network \<Rightarrow> flags \<Rightarrow> string \<Rightarrow> string \<Rightarrow> string \<Rightarrow> state \<Rightarrow> (error + address) \<times> state" where
  "allocate_ip net fl user project mac s =
     (case available net fl s of
        [] \<Rightarrow> (Inl NoMoreAddresses, s)
      | Inl e # _ \<Rightarrow> (Inl e, s)
      | Inr a # _ \<Rightarrow>
          (case express net (Some a) (add_host net user project a mac s) of
             (Inl e, s') \<Rightarrow> (Inl e, s')
           | (Inr _, s') \<Rightarrow> (Inr a, s')))"

definition release_ip :: "Network \<Rightarrow> address \<Rightarrow> state \<Rightarrow> (error + unit) \<times> state" where
  "release_ip net ip_str s =
     (if ip_str \<notin> set (assigned s) then (Inl AddressNotAllocated, s)
      else
        (case deexpress net ip_str s of
           (Inl e, s') \<Rightarrow> (Inl e, s')
         | (Inr _, s') \<Rightarrow> (Inr (), rem_host net ip_str s')))"

text \<open>
  \<^verbatim>\<open>DHCPNetwork.allocate_vpn_ip\<close>: a method of the DHCP class, so \<^verbatim>\<open>self._add_host\<close> is
  the base class's and \<^verbatim>\<open>self.express\<close> the DHCP class's.
\<close>

definition allocate_vpn_ip ::
  "Network \<Rightarrow> string \<Rightarrow> string \<Rightarrow> string \<Rightarrow> state \<Rightarrow> (error + address) \<times> state" where
  "allocate_vpn_ip net user project mac s =
     (case getitem (network net) 2 of
        Inl e \<Rightarrow> (Inl e, s)
      | Inr a \<Rightarrow>
          (case express_DHCP net (s\<lparr>hosts := AList.update a mac (hosts s)\<rparr>) of
             (Inl e, s') \<Rightarrow> (Inl e, s')
           | (Inr _, s') \<Rightarrow> (Inr a, s')))"

subsection \<open>Public association\<close>

definition associate_address ::
  "address \<Rightarrow> string \<Rightarrow> string \<Rightarrow> state \<Rightarrow> (error + unit) \<times> state" where
  "associate_address public_ip private_ip instance s =
     (if public_ip \<notin> set (assigned s) then (Inl AddressNotAllocated, s)
      else if \<exists>a \<in> set (assigned s). map_of (PublicAddress a s) ''private_ip'' = Some private_ip
        then (Inl AddressAlreadyAssociated, s)
      else
        (case get_host public_ip s of
           None \<Rightarrow> (Inl AttributeError, s)
         | Some addr \<Rightarrow>
             if dict_get addr ''private_ip'' ''available'' \<noteq> ''available''
               then (Inl AddressAlreadyAssociated, s)
             else
               (let addr1 = AList.update ''private_ip'' private_ip addr;
                    addr2 = AList.update ''instance_id'' instance addr1
                in express_Public (Some public_ip) (PublicAddress_save public_ip addr2 s))))"

definition disassociate_address :: "address \<Rightarrow> state \<Rightarrow> (error + unit) \<times> state" where
  "disassociate_address public_ip s =
     (if public_ip \<notin> set (assigned s) then (Inl AddressNotAllocated, s)
      else
        (case get_host public_ip s of
           None \<Rightarrow> (Inl AttributeError, s)
         | Some addr \<Rightarrow>
             if dict_get addr ''private_ip'' ''available'' = ''available''
               then (Inl AddressNotAssociated, s)
             else
               (case deexpress_Public public_ip s of
                  (Inl e, s') \<Rightarrow> (Inl e, s')
                | (Inr _, s') \<Rightarrow>
                    (let addr1 = AList.update ''private_ip'' ''available'' addr;
                         addr2 = AList.update ''instance_id'' ''available'' addr1
                     in (Inr (), PublicAddress_save public_ip addr2 s')))))"

subsection \<open>Runs of allocate and release calls\<close>

datatype call = Allocate string string string | Release address

fun apply_call :: "Network \<Rightarrow> flags \<Rightarrow> call \<Rightarrow> state \<Rightarrow> state" where
  "apply_call net fl (Allocate user project mac) s = snd (allocate_ip net fl user project mac s)"
| "apply_call net fl (Release a) s = snd (release_ip net a s)"

definition run_calls :: "Network \<Rightarrow> flags \<Rightarrow> call list \<Rightarrow> state \<Rightarrow> state" where
  "run_calls net fl calls s = foldl (\<lambda>s' c. apply_call net fl c s') s calls"

definition dhcp_running :: "state \<Rightarrow> bool" where
  "dhcp_running s = (dnsmasq s \<noteq> None)"

definition lease_count :: "state \<Rightarrow> nat" where
  "lease_count s = length (assigned s)"

subsection \<open>Records of the leased public addresses\<close>

text \<open>
  The stored state the public controller keeps by itself: \<^verbatim>\<open>_add_host\<close> writes the
  record of every address it leases, with its \<^verbatim>\<open>private_ip\<close> field, and \<^verbatim>\<open>_rem_host\<close>
  destroys the record with the lease.
\<close>

definition records_ok :: "state \<Rightarrow> bool" where
  "records_ok s =
     (\<forall>a \<in> set (assigned s). map_of (PublicAddress a s) ''private_ip'' \<noteq> None)"


subsection \<open>The default configuration\<close>

text \<open>
  The flags' defaults, a DHCP network on the first private subnet \<^verbatim>\<open>10.0.0.0/24\<close>
  (\<open>10.0.0.0\<close> is 167772160) whose project exists, and the public controller on the
  default public range \<^verbatim>\<open>4.4.4.0/24\<close> (\<open>4.4.4.0\<close> is 67372032), whose project id
  \<^verbatim>\<open>"public"\<close> names no project.
\<close>

abbreviation default_flags :: flags where
  "default_flags \<equiv> \<lparr>vlan_start = 100, vlan_end = 4093, cnt_vpn_clients = 5\<rparr>"

abbreviation dhcp_net_24 :: Network where
  "dhcp_net_24 \<equiv>
     \<lparr>kind = DHCPNetwork, network = \<lparr>ip = 167772160, len = 256\<rparr>,
      project_obj = Some \<lparr>vpn_ip = ''198.51.100.1'', vpn_port = 12000\<rparr>\<rparr>"

abbreviation public_net_24 :: Network where
  "public_net_24 \<equiv>
     \<lparr>kind = PublicNetworkController, network = \<lparr>ip = 67372032, len = 256\<rparr>,
      project_obj = None\<rparr>"


text \<open>
  A public pool with two leased addresses, \<open>4.4.4.2\<close> and \<open>4.4.4.3\<close>, neither of them
  associated: the state two public allocations leave.
\<close>

abbreviation two_public_leases :: state where
  "two_public_leases \<equiv>
     empty_state
       \<lparr>hosts := [(67372034, ''proj''), (67372035, ''proj'')],
        addresses :=
          [(67372034, [(''user_id'', ''user''), (''project_id'', ''proj''),
                       (''instance_id'', ''available''), (''private_ip'', ''available'')]),
           (67372035, [(''user_id'', ''user''), (''project_id'', ''proj''),
                       (''instance_id'', ''available''), (''private_ip'', ''available'')])]\<rparr>"


section \<open>Properties of the VLAN allocator\<close>

subsection \<open>The reverse index\<close>

lemma foldl_dict_Some:
  "map_of (foldl (\<lambda>retvals (val, vl). AList.update vl val retvals) acc tbl) v = Some p
     \<Longrightarrow> (p, v) \<in> set tbl \<or> map_of acc v = Some p"
proof (induction tbl arbitrary: acc)
  case Nil
  then show ?case by simp
next
  case (Cons e tbl)
  obtain q u where e: "e = (q, u)" by (cases e)
  from Cons.prems have "map_of (foldl (\<lambda>retvals (val, vl). AList.update vl val retvals)
      (AList.update u q acc) tbl) v = Some p"
    by (simp add: e)
  from Cons.IH [OF this] show ?case
    by (auto simp: e update_conv' split: if_splits)
qed

lemma foldl_dict_None:
  "map_of (foldl (\<lambda>retvals (val, vl). AList.update vl val retvals) acc tbl) v = None
     \<longleftrightarrow> v \<notin> snd ` set tbl \<and> map_of acc v = None"
proof (induction tbl arbitrary: acc)
  case Nil
  then show ?case by simp
next
  case (Cons e tbl)
  obtain q u where e: "e = (q, u)" by (cases e)
  show ?case
    by (auto simp: e Cons.IH update_conv')
qed

lemma dict_by_vlan_Some: "map_of (dict_by_vlan tbl) v = Some p \<Longrightarrow> (p, v) \<in> set tbl"
  using foldl_dict_Some [of "[]" tbl v p] by (simp add: dict_by_vlan_def)

lemma dict_by_vlan_None: "map_of (dict_by_vlan tbl) v = None \<longleftrightarrow> v \<notin> snd ` set tbl"
  using foldl_dict_None [of "[]" tbl v] by (simp add: dict_by_vlan_def)

lemma known_owner_live:
  assumes "\<exists>q. (q, v) \<in> set tbl" and "\<forall>q. (q, v) \<in> set tbl \<longrightarrow> q \<in> set projects"
  shows "\<exists>p. map_of (dict_by_vlan tbl) v = Some p \<and> p \<in> set projects"
proof -
  from assms(1) have "v \<in> snd ` set tbl" by force
  then have "map_of (dict_by_vlan tbl) v \<noteq> None" by (simp add: dict_by_vlan_None)
  then obtain p where p: "map_of (dict_by_vlan tbl) v = Some p" by blast
  then have "(p, v) \<in> set tbl" by (rule dict_by_vlan_Some)
  with assms(2) p show ?thesis by blast
qed

subsection \<open>The scan\<close>

lemma scan_vlans_exhausted:
  "\<forall>v \<in> set vs. \<exists>p. map_of known v = Some p \<and> p \<in> set projects
     \<Longrightarrow> scan_vlans projects known project vs tbl = (Inl AddressNotAllocated, tbl)"
  by (induction vs) (auto simp: get_project_def)

lemma scan_vlans_first_free:
  "\<forall>u \<in> set us. \<exists>p. map_of known u = Some p \<and> p \<in> set projects
     \<Longrightarrow> map_of known v = None
     \<Longrightarrow> scan_vlans projects known project (us @ v # rest) tbl =
           (Inr \<lparr>project_id = project, vlan_id = v\<rparr>, AList.update project v tbl)"
  by (induction us) (auto simp: get_project_def Vlan_create_def Vlan_save_def)

lemma scan_vlans_first_orphan:
  "\<forall>u \<in> set us. \<exists>p. map_of known u = Some p \<and> p \<in> set projects
     \<Longrightarrow> map_of known v = Some old \<Longrightarrow> old \<notin> set projects
     \<Longrightarrow> map_of tbl old = Some vl
     \<Longrightarrow> scan_vlans projects known project (us @ v # rest) tbl =
           (Inr \<lparr>project_id = project, vlan_id = vl\<rparr>,
            AList.update project vl (AList.delete old tbl))"
proof (induction us)
  case Nil
  then show ?case
    by (simp add: get_project_def Vlan_lookup_def Vlan_destroy_def Vlan_save_def)
next
  case (Cons u us)
  then show ?case
    by (auto simp: get_project_def)
qed

lemma scan_vlans_Inr:
  "scan_vlans projects known project vs tbl = (Inr v, tbl')
     \<Longrightarrow> project_id v = project \<and> map_of tbl' project = Some (vlan_id v)"
  by (induction vs)
     (auto simp: Vlan_create_def Vlan_save_def Vlan_destroy_def Vlan_lookup_def update_conv'
           split: option.splits if_splits)

lemma get_vlan_Inr:
  "get_vlan_for_project fl projects project tbl = (Inr v, tbl')
     \<Longrightarrow> project_id v = project \<and> map_of tbl' project = Some (vlan_id v)"
  by (auto simp: get_vlan_for_project_def Vlan_lookup_def split: option.splits
           dest: scan_vlans_Inr)

lemma scan_vlans_keeps:
  "p \<in> set projects \<Longrightarrow> p \<noteq> project
     \<Longrightarrow> map_of (snd (scan_vlans projects known project vs tbl)) p = map_of tbl p"
  by (induction vs)
     (auto simp: Vlan_create_def Vlan_save_def Vlan_destroy_def Vlan_lookup_def update_conv'
           delete_conv' get_project_def
           split: option.splits if_splits)

lemma get_vlan_keeps:
  assumes "p \<in> set projects" and "map_of tbl p = Some vl"
  shows "map_of (snd (get_vlan_for_project fl projects q tbl)) p = Some vl"
proof (cases "q = p")
  case True
  with assms show ?thesis
    by (simp add: get_vlan_for_project_def Vlan_lookup_def)
next
  case False
  with assms show ?thesis
    by (simp add: get_vlan_for_project_def Vlan_lookup_def scan_vlans_keeps split: option.splits)
qed

lemma vlan_calls_keeps:
  "\<forall>c \<in> set calls. p \<in> set (snd c) \<Longrightarrow> map_of tbl p = Some vl
     \<Longrightarrow> map_of (vlan_calls fl calls tbl) p = Some vl"
proof (induction calls arbitrary: tbl)
  case Nil
  then show ?case by simp
next
  case (Cons c calls)
  obtain q projs where c: "c = (q, projs)" by (cases c)
  from Cons.prems have "p \<in> set projs" by (simp add: c)
  then have "map_of (snd (get_vlan_for_project fl projs q tbl)) p = Some vl"
    using Cons.prems(2) by (rule get_vlan_keeps)
  with Cons show ?case by (simp add: c)
qed

lemmas vlan_eval = get_vlan_for_project_def Vlan_lookup_def dict_by_vlan_def py_range_def
  get_project_def Vlan_destroy_def Vlan_save_def Vlan_create_def

subsection \<open>A full pool\<close>

text \<open>
  C2, as the claim states it, fails: with the pool 100, 101, 102 owned by the existing
  projects A, B and C, the request of a fourth project D raises
  \<^verbatim>\<open>AddressNotAllocated\<close>, the error the module also raises for an address that is
  not leased. The module has no separate out-of-VLANs error.
\<close>

theorem out_of_vlans_counterexample:
  "get_vlan_for_project \<lparr>vlan_start = 100, vlan_end = 103, cnt_vpn_clients = 5\<rparr>
     [''A'', ''B'', ''C'', ''D''] ''D'' [(''A'', 100), (''B'', 101), (''C'', 102)] =
   (Inl AddressNotAllocated, [(''A'', 100), (''B'', 101), (''C'', 102)])"
  by (simp add: vlan_eval)

text \<open>
  C2, amended: for a project that has no VLAN record, when every vlan id of
  \<open>[vlan_start, vlan_end)\<close> has a recorded owner and every recorded owner of such an id
  exists, the allocator raises \<^verbatim>\<open>AddressNotAllocated\<close> and leaves the table as it was.
\<close>

theorem out_of_vlans_raises_AddressNotAllocated:
  assumes norec: "map_of tbl project = None"
    and owned: "\<forall>v \<in> {vlan_start fl ..< vlan_end fl}. \<exists>q. (q, v) \<in> set tbl"
    and live: "\<forall>v \<in> {vlan_start fl ..< vlan_end fl}. \<forall>q. (q, v) \<in> set tbl \<longrightarrow> q \<in> set projects"
  shows "get_vlan_for_project fl projects project tbl = (Inl AddressNotAllocated, tbl)"
proof -
  have "\<forall>v \<in> set (py_range (vlan_start fl) (vlan_end fl)).
          \<exists>p. map_of (dict_by_vlan tbl) v = Some p \<and> p \<in> set projects"
  proof
    fix v assume "v \<in> set (py_range (vlan_start fl) (vlan_end fl))"
    then have v: "v \<in> {vlan_start fl ..< vlan_end fl}" by (auto simp: py_range_def)
    show "\<exists>p. map_of (dict_by_vlan tbl) v = Some p \<and> p \<in> set projects"
      using known_owner_live [of v tbl projects] owned live v by blast
  qed
  then show ?thesis
    using norec by (simp add: get_vlan_for_project_def Vlan_lookup_def scan_vlans_exhausted)
qed

theorem out_of_vlans_raises_AddressNotAllocated_witness:
  "get_vlan_for_project \<lparr>vlan_start = 100, vlan_end = 102, cnt_vpn_clients = 5\<rparr>
     [''A'', ''B'', ''D''] ''D'' [(''A'', 100), (''B'', 101)] =
   (Inl AddressNotAllocated, [(''A'', 100), (''B'', 101)])"
proof (rule out_of_vlans_raises_AddressNotAllocated)
  have two: "v = 100 \<or> v = 101" if "v \<in> {100..<102}" for v :: int
    using that by auto
  show "map_of [(''A'', 100), (''B'', 101)] ''D'' = None" by simp
  show "\<forall>v\<in>{vlan_start \<lparr>vlan_start = 100, vlan_end = 102, cnt_vpn_clients = 5\<rparr>..<
                vlan_end \<lparr>vlan_start = 100, vlan_end = 102, cnt_vpn_clients = 5\<rparr>}.
       \<exists>q. (q, v) \<in> set [(''A'', 100), (''B'', 101)]"
  proof
    fix v :: int
    assume "v \<in> {vlan_start \<lparr>vlan_start = 100, vlan_end = 102, cnt_vpn_clients = 5\<rparr>..<
                vlan_end \<lparr>vlan_start = 100, vlan_end = 102, cnt_vpn_clients = 5\<rparr>}"
    then have "v = 100 \<or> v = 101" using two by simp
    then show "\<exists>q. (q, v) \<in> set [(''A'', 100), (''B'', 101)]" by auto
  qed
  show "\<forall>v\<in>{vlan_start \<lparr>vlan_start = 100, vlan_end = 102, cnt_vpn_clients = 5\<rparr>..<
                vlan_end \<lparr>vlan_start = 100, vlan_end = 102, cnt_vpn_clients = 5\<rparr>}.
       \<forall>q. (q, v) \<in> set [(''A'', 100), (''B'', 101)] \<longrightarrow> q \<in> set [''A'', ''B'', ''D'']"
    by auto
qed

subsection \<open>The first free id and reclamation\<close>

text \<open>
  C3, as the claim states it, fails: with 100 owned by a project A that no longer
  exists and 101 free, the request of D takes over 100 (A's record is destroyed and
  written again under D); it is not given 101.
\<close>

theorem reclaim_before_free_counterexample:
  "get_vlan_for_project \<lparr>vlan_start = 100, vlan_end = 103, cnt_vpn_clients = 5\<rparr>
     [''D''] ''D'' [(''A'', 100)] =
   (Inr \<lparr>project_id = ''D'', vlan_id = 100\<rparr>, [(''D'', 100)])"
  by (simp add: vlan_eval)

text \<open>
  C3, amended: for a project with no VLAN record, let \<open>v\<close> in \<open>[vlan_start, vlan_end)\<close>
  be such that every lower id of the range has a recorded owner, each of which exists.
  If \<open>v\<close> has no recorded owner, the allocator records \<open>(project, v)\<close> and returns
  it. If \<open>v\<close> is recorded for one project \<open>old\<close> and \<open>old\<close> no longer exists, the allocator
  reclaims \<open>v\<close>: it destroys the record of \<open>old\<close>, records \<open>(project, v)\<close> and returns it,
  whether or not a higher id of the range is free.
\<close>

theorem first_free_or_orphaned_vlan_is_assigned:
  assumes norec: "map_of tbl project = None"
    and v: "vlan_start fl \<le> v" "v < vlan_end fl"
    and owned: "\<forall>u \<in> {vlan_start fl ..< v}. \<exists>q. (q, u) \<in> set tbl"
    and live: "\<forall>u \<in> {vlan_start fl ..< v}. \<forall>q. (q, u) \<in> set tbl \<longrightarrow> q \<in> set projects"
  shows "((\<forall>q. (q, v) \<notin> set tbl) \<longrightarrow>
            get_vlan_for_project fl projects project tbl =
              (Inr \<lparr>project_id = project, vlan_id = v\<rparr>, AList.update project v tbl))
         \<and> (distinct (map fst tbl) \<and> (old, v) \<in> set tbl
              \<and> (\<forall>q. (q, v) \<in> set tbl \<longrightarrow> q = old) \<and> old \<notin> set projects \<longrightarrow>
            get_vlan_for_project fl projects project tbl =
              (Inr \<lparr>project_id = project, vlan_id = v\<rparr>,
               AList.update project v (AList.delete old tbl)))"
proof -
  have split: "py_range (vlan_start fl) (vlan_end fl) =
      [vlan_start fl .. v - 1] @ v # [v + 1 .. vlan_end fl - 1]"
    unfolding py_range_def using v by (intro upto_split3) auto
  have low: "\<forall>u \<in> set [vlan_start fl .. v - 1].
          \<exists>p. map_of (dict_by_vlan tbl) u = Some p \<and> p \<in> set projects"
  proof
    fix u assume "u \<in> set [vlan_start fl .. v - 1]"
    then have u: "u \<in> {vlan_start fl ..< v}" by auto
    show "\<exists>p. map_of (dict_by_vlan tbl) u = Some p \<and> p \<in> set projects"
      using known_owner_live [of u tbl projects] owned live u by blast
  qed
  have free: "get_vlan_for_project fl projects project tbl =
      (Inr \<lparr>project_id = project, vlan_id = v\<rparr>, AList.update project v tbl)"
    if "\<forall>q. (q, v) \<notin> set tbl"
  proof -
    have "v \<notin> snd ` set tbl" using that by force
    then have none: "map_of (dict_by_vlan tbl) v = None" by (simp add: dict_by_vlan_None)
    show ?thesis
      using norec
      by (simp add: get_vlan_for_project_def Vlan_lookup_def split
          scan_vlans_first_free [OF low none])
  qed
  have orphan: "get_vlan_for_project fl projects project tbl =
      (Inr \<lparr>project_id = project, vlan_id = v\<rparr>,
       AList.update project v (AList.delete old tbl))"
    if h: "distinct (map fst tbl) \<and> (old, v) \<in> set tbl
        \<and> (\<forall>q. (q, v) \<in> set tbl \<longrightarrow> q = old) \<and> old \<notin> set projects"
  proof -
    from h have dist: "distinct (map fst tbl)" and mem: "(old, v) \<in> set tbl"
      and uniq: "\<forall>q. (q, v) \<in> set tbl \<longrightarrow> q = old" and dead: "old \<notin> set projects"
      by blast+
    from mem have "v \<in> snd ` set tbl" by force
    then have "map_of (dict_by_vlan tbl) v \<noteq> None" by (simp add: dict_by_vlan_None)
    then obtain p where p: "map_of (dict_by_vlan tbl) v = Some p" by blast
    then have "(p, v) \<in> set tbl" by (rule dict_by_vlan_Some)
    with uniq have "p = old" by blast
    with p have known: "map_of (dict_by_vlan tbl) v = Some old" by simp
    from dist mem have rec: "map_of tbl old = Some v" by simp
    show ?thesis
      using norec
      by (simp add: get_vlan_for_project_def Vlan_lookup_def split
          scan_vlans_first_orphan [OF low known dead rec])
  qed
  from free orphan show ?thesis by blast
qed

theorem first_free_or_orphaned_vlan_is_assigned_witness:
  "get_vlan_for_project \<lparr>vlan_start = 100, vlan_end = 103, cnt_vpn_clients = 5\<rparr>
     [''A'', ''D''] ''D'' [(''A'', 100)] =
   (Inr \<lparr>project_id = ''D'', vlan_id = 101\<rparr>, [(''A'', 100), (''D'', 101)])
   \<and> get_vlan_for_project \<lparr>vlan_start = 100, vlan_end = 103, cnt_vpn_clients = 5\<rparr>
     [''A'', ''D''] ''D'' [(''A'', 100), (''B'', 101)] =
   (Inr \<lparr>project_id = ''D'', vlan_id = 101\<rparr>, [(''A'', 100), (''D'', 101)])"
proof -
  let ?fl = "\<lparr>vlan_start = 100, vlan_end = 103, cnt_vpn_clients = 5\<rparr>"
  let ?projects = "[''A'', ''D'']"
  have one: "u = 100" if "u \<in> {vlan_start ?fl ..< 101}" for u :: int
    using that by auto
  have b1: "vlan_start ?fl \<le> 101" and b2: "101 < vlan_end ?fl" by simp_all
  have free: "get_vlan_for_project ?fl ?projects ''D'' [(''A'', 100)] =
      (Inr \<lparr>project_id = ''D'', vlan_id = 101\<rparr>, [(''A'', 100), (''D'', 101)])"
  proof -
    let ?tbl = "[(''A'', 100 :: int)]"
    have norec: "map_of ?tbl ''D'' = None" by simp
    have owned: "\<forall>u \<in> {vlan_start ?fl ..< 101}. \<exists>q. (q, u) \<in> set ?tbl"
      using one by auto
    have live: "\<forall>u \<in> {vlan_start ?fl ..< 101}. \<forall>q. (q, u) \<in> set ?tbl \<longrightarrow> q \<in> set ?projects"
      by auto
    have unowned: "\<forall>q. (q, 101) \<notin> set ?tbl" by simp
    from first_free_or_orphaned_vlan_is_assigned [OF norec b1 b2 owned live, of "''B''"] unowned
    have "get_vlan_for_project ?fl ?projects ''D'' ?tbl =
        (Inr \<lparr>project_id = ''D'', vlan_id = 101\<rparr>, AList.update ''D'' 101 ?tbl)"
      by blast
    then show ?thesis by simp
  qed
  have orphan: "get_vlan_for_project ?fl ?projects ''D'' [(''A'', 100), (''B'', 101)] =
      (Inr \<lparr>project_id = ''D'', vlan_id = 101\<rparr>, [(''A'', 100), (''D'', 101)])"
  proof -
    let ?tbl = "[(''A'', 100 :: int), (''B'', 101)]"
    have norec: "map_of ?tbl ''D'' = None" by simp
    have owned: "\<forall>u \<in> {vlan_start ?fl ..< 101}. \<exists>q. (q, u) \<in> set ?tbl"
      using one by auto
    have live: "\<forall>u \<in> {vlan_start ?fl ..< 101}. \<forall>q. (q, u) \<in> set ?tbl \<longrightarrow> q \<in> set ?projects"
      by auto
    have dead: "distinct (map fst ?tbl) \<and> (''B'', 101) \<in> set ?tbl
        \<and> (\<forall>q. (q, 101) \<in> set ?tbl \<longrightarrow> q = ''B'') \<and> ''B'' \<notin> set ?projects"
      by simp
    from first_free_or_orphaned_vlan_is_assigned [OF norec b1 b2 owned live, of "''B''"] dead
    have "get_vlan_for_project ?fl ?projects ''D'' ?tbl =
        (Inr \<lparr>project_id = ''D'', vlan_id = 101\<rparr>,
         AList.update ''D'' 101 (AList.delete ''B'' ?tbl))"
      by blast
    then show ?thesis by simp
  qed
  from free orphan show ?thesis by blast
qed

subsection \<open>Repeated requests of one project\<close>

text \<open>
  C9, as the claim states it, fails: p is given 100; p stops existing and the request of
  another project q takes over 100; p, existing again, asks again and is given 101.
\<close>

theorem repeated_request_counterexample:
  "get_vlan_for_project \<lparr>vlan_start = 100, vlan_end = 103, cnt_vpn_clients = 5\<rparr>
     [''p''] ''p'' [] = (Inr \<lparr>project_id = ''p'', vlan_id = 100\<rparr>, [(''p'', 100)])
   \<and> vlan_calls \<lparr>vlan_start = 100, vlan_end = 103, cnt_vpn_clients = 5\<rparr>
       [(''q'', [''q''])] [(''p'', 100)] = [(''q'', 100)]
   \<and> get_vlan_for_project \<lparr>vlan_start = 100, vlan_end = 103, cnt_vpn_clients = 5\<rparr>
       [''p'', ''q''] ''p'' [(''q'', 100)] =
       (Inr \<lparr>project_id = ''p'', vlan_id = 101\<rparr>, [(''q'', 100), (''p'', 101)])"
  by (simp add: vlan_eval)

text \<open>
  C9, amended: once a request of p has returned a VLAN, every later request of p returns
  the same VLAN and changes nothing, whatever requests (of p or of other projects) are
  made in between, provided p exists whenever one of those requests is made.
\<close>

theorem repeated_request_same_vlan:
  assumes first: "get_vlan_for_project fl projects p tbl = (Inr v, tbl1)"
    and live: "\<forall>c \<in> set calls. p \<in> set (snd c)"
  shows "get_vlan_for_project fl projects' p (vlan_calls fl calls tbl1) =
           (Inr v, vlan_calls fl calls tbl1)"
proof -
  from get_vlan_Inr [OF first] have pv: "project_id v = p" "map_of tbl1 p = Some (vlan_id v)"
    by simp_all
  from vlan_calls_keeps [OF live pv(2)]
  have "map_of (vlan_calls fl calls tbl1) p = Some (vlan_id v)" .
  moreover have "v = \<lparr>project_id = p, vlan_id = vlan_id v\<rparr>" using pv(1) by simp
  ultimately show ?thesis
    by (simp add: get_vlan_for_project_def Vlan_lookup_def)
qed

theorem repeated_request_same_vlan_witness:
  "get_vlan_for_project \<lparr>vlan_start = 100, vlan_end = 103, cnt_vpn_clients = 5\<rparr>
     [''p'', ''q''] ''p'' [] = (Inr \<lparr>project_id = ''p'', vlan_id = 100\<rparr>, [(''p'', 100)])
   \<and> vlan_calls \<lparr>vlan_start = 100, vlan_end = 103, cnt_vpn_clients = 5\<rparr>
       [(''q'', [''p'', ''q''])] [(''p'', 100)] = [(''p'', 100), (''q'', 101)]
   \<and> get_vlan_for_project \<lparr>vlan_start = 100, vlan_end = 103, cnt_vpn_clients = 5\<rparr>
       [''p'', ''q''] ''p'' [(''p'', 100), (''q'', 101)] =
       (Inr \<lparr>project_id = ''p'', vlan_id = 100\<rparr>, [(''p'', 100), (''q'', 101)])"
proof -
  let ?fl = "\<lparr>vlan_start = 100, vlan_end = 103, cnt_vpn_clients = 5\<rparr>"
  have first: "get_vlan_for_project ?fl [''p'', ''q''] ''p'' [] =
      (Inr \<lparr>project_id = ''p'', vlan_id = 100\<rparr>, [(''p'', 100)])"
    by (simp add: vlan_eval)
  have run: "vlan_calls ?fl [(''q'', [''p'', ''q''])] [(''p'', 100)] = [(''p'', 100), (''q'', 101)]"
    by (simp add: vlan_eval)
  have live: "\<forall>c \<in> set [(''q'', [''p'', ''q''])]. ''p'' \<in> set (snd c)" by simp
  from repeated_request_same_vlan [OF first live, of "[''p'', ''q'']"] first run
  show ?thesis by simp
qed


section \<open>Properties of the address pools\<close>

subsection \<open>What activation leaves alone\<close>

lemma backend_hosts [simp]:
  "hosts (vlan_create s) = hosts s"
  "hosts (bridge_create s) = hosts s"
  "hosts (start_dnsmasq s) = hosts s"
  "hosts (stop_dnsmasq s) = hosts s"
  "hosts (confirm_rule r s) = hosts s"
  "hosts (remove_rule r s) = hosts s"
  "hosts (bind_public_ip a s) = hosts s"
  "hosts (unbind_public_ip a s) = hosts s"
  "hosts (PublicAddress_save a st s) = hosts s"
  "hosts (PublicAddress_destroy a s) = hosts s"
  by (simp_all add: vlan_create_def bridge_create_def start_dnsmasq_def stop_dnsmasq_def
      confirm_rule_def remove_rule_def bind_public_ip_def unbind_public_ip_def
      PublicAddress_save_def PublicAddress_destroy_def)

lemma backend_addresses [simp]:
  "addresses (vlan_create s) = addresses s"
  "addresses (bridge_create s) = addresses s"
  "addresses (start_dnsmasq s) = addresses s"
  "addresses (stop_dnsmasq s) = addresses s"
  "addresses (confirm_rule r s) = addresses s"
  "addresses (remove_rule r s) = addresses s"
  "addresses (bind_public_ip a s) = addresses s"
  "addresses (unbind_public_ip a s) = addresses s"
  by (simp_all add: vlan_create_def bridge_create_def start_dnsmasq_def stop_dnsmasq_def
      confirm_rule_def remove_rule_def bind_public_ip_def unbind_public_ip_def)

lemma express_addr_keeps [simp]:
  "hosts (express_addr a addr s) = hosts s"
  "addresses (express_addr a addr s) = addresses s"
  by (simp_all add: express_addr_def DEFAULT_PORTS_def Let_def)

lemma express_cloudpipe_keeps [simp]:
  "hosts (snd (express_cloudpipe net s)) = hosts s"
  "addresses (snd (express_cloudpipe net s)) = addresses s"
  by (simp_all add: express_cloudpipe_def Let_def split: sum.splits option.splits)

lemma express_DHCP_keeps [simp]:
  "hosts (snd (express_DHCP net s)) = hosts s"
  "addresses (snd (express_DHCP net s)) = addresses s"
  by (simp_all add: express_DHCP_def express_Bridged_def Let_def)

lemma foldl_express_addr_keeps:
  "hosts (foldl (\<lambda>s' a. express_addr a (PublicAddress a s') s') s xs) = hosts s
   \<and> addresses (foldl (\<lambda>s' a. express_addr a (PublicAddress a s') s') s xs) = addresses s"
  by (induction xs arbitrary: s) simp_all

lemma express_Public_keeps [simp]:
  "hosts (snd (express_Public ad s)) = hosts s"
  "addresses (snd (express_Public ad s)) = addresses s"
  by (simp_all add: express_Public_def foldl_express_addr_keeps split: option.splits)

lemma express_snd_keeps [simp]:
  "hosts (snd (express net ad s)) = hosts s"
  "addresses (snd (express net ad s)) = addresses s"
  by (simp_all add: express_def express_Bridged_def split: kind.splits)

lemma express_keeps:
  "express net ad s = (r, s') \<Longrightarrow> hosts s' = hosts s \<and> addresses s' = addresses s"
  using express_snd_keeps [of net ad s] by simp

lemma deexpress_Public_keeps [simp]:
  "hosts (snd (deexpress_Public a s)) = hosts s"
  "addresses (snd (deexpress_Public a s)) = addresses s"
  by (simp_all add: deexpress_Public_def DEFAULT_PORTS_def Let_def split: option.splits)

lemma deexpress_snd_keeps [simp]:
  "hosts (snd (deexpress net a s)) = hosts s"
  "addresses (snd (deexpress net a s)) = addresses s"
  by (simp_all add: deexpress_def deexpress_DHCP_def split: kind.splits)

lemma deexpress_keeps:
  "deexpress net a s = (r, s') \<Longrightarrow> hosts s' = hosts s \<and> addresses s' = addresses s"
  using deexpress_snd_keeps [of net a s] by simp

lemma hosts_rem_host [simp]: "hosts (rem_host net a s) = AList.delete a (hosts s)"
  by (simp add: rem_host_def)

lemma hosts_add_host [simp]:
  "hosts (add_host net user project a mac s) =
     AList.update a (if kind net = PublicNetworkController then project else mac) (hosts s)"
  by (simp add: add_host_def PublicAddress_create_def Let_def)

lemma assigned_add_host: "a \<in> set (assigned (add_host net user project a mac s))"
  by (simp add: assigned_def dom_update)

lemma available_hosts_cong:
  "hosts s2 = hosts s \<Longrightarrow> available net fl s2 = available net fl s"
  by (simp add: available_def)

subsection \<open>When activation succeeds\<close>

lemma express_fst:
  "fst (express net (Some a) s) =
     (case kind net of
        DHCPNetwork \<Rightarrow>
          (case getitem (network net) 2 of
             Inl e \<Rightarrow> Inl e
           | Inr _ \<Rightarrow> (case project_obj net of None \<Rightarrow> Inl AttributeError | Some _ \<Rightarrow> Inr ()))
      | PublicNetworkController \<Rightarrow> (if a \<in> set (assigned s) then Inr () else Inl AttributeError)
      | _ \<Rightarrow> Inr ())"
  by (simp add: express_def express_DHCP_def express_cloudpipe_def express_Public_def
      get_host_def Let_def split: kind.splits sum.splits option.splits)

lemma deexpress_ok:
  assumes "a \<in> set (assigned s)"
    and "kind net = PublicNetworkController \<longrightarrow> map_of (PublicAddress a s) ''private_ip'' \<noteq> None"
  shows "\<exists>s1. deexpress net a s = (Inr (), s1)"
  using assms
  by (cases "kind net")
     (auto simp: deexpress_def deexpress_Public_def get_host_def Let_def split: option.splits)

subsection \<open>What the scan yields\<close>

lemma available_from_Inr:
  "Inr a \<in> set (available_from nw keys idxs)
     \<Longrightarrow> \<exists>idx \<in> set idxs. getitem nw idx = Inr a \<and> a \<notin> set keys"
  by (induction idxs) (auto split: sum.splits if_splits)

lemma available_from_in_range:
  "\<forall>idx \<in> set idxs. 0 \<le> idx \<and> idx < int (len nw)
     \<Longrightarrow> available_from nw keys idxs =
           map Inr (filter (\<lambda>a. a \<notin> set keys) (map (\<lambda>idx. ip nw + idx) idxs))"
  by (induction idxs) (auto simp: getitem_def)

lemma getitem_nonneg:
  "0 \<le> idx \<Longrightarrow> getitem nw idx = Inr a \<Longrightarrow> a = ip nw + idx \<and> idx < int (len nw)"
  by (auto simp: getitem_def split: if_splits)

lemma public_available:
  assumes "kind net = PublicNetworkController"
  shows "available net fl s =
     map Inr (filter (\<lambda>a. a \<notin> set (assigned s))
       (map (\<lambda>idx. ip (network net) + idx) [2 .. int (len (network net)) - 2]))"
proof -
  have "\<forall>idx \<in> set (py_range 2 (int (len (network net)) - 1)).
      0 \<le> idx \<and> idx < int (len (network net))"
    by (auto simp: py_range_def)
  from available_from_in_range [OF this] show ?thesis
    using assms by (simp add: available_def assigned_def py_range_def)
qed

lemma allocate_ip_head:
  "allocate_ip net fl user project mac s = (Inr a, s')
     \<Longrightarrow> \<exists>rest. available net fl s = Inr a # rest"
  by (auto simp: allocate_ip_def split: list.splits sum.splits prod.splits)

lemma allocate_ip_state:
  assumes "allocate_ip net fl user project mac s = (Inr a, s1)"
  shows "a \<notin> set (assigned s)"
    and "\<exists>t. hosts s1 = AList.update a t (hosts s)"
    and "express net (Some a) (add_host net user project a mac s) = (Inr (), s1)"
    and "kind net = PublicNetworkController \<Longrightarrow> map_of (PublicAddress a s1) ''private_ip'' \<noteq> None"
proof -
  from allocate_ip_head [OF assms] obtain rest where hd: "available net fl s = Inr a # rest" ..
  then have "Inr a \<in> set (available net fl s)" by simp
  then show "a \<notin> set (assigned s)"
    by (auto simp: available_def assigned_def simp del: set_map
        dest!: available_from_Inr split: if_splits)
  from assms hd show ex: "express net (Some a) (add_host net user project a mac s) = (Inr (), s1)"
    by (auto simp: allocate_ip_def split: sum.splits prod.splits)
  from express_keeps [OF ex] show "\<exists>t. hosts s1 = AList.update a t (hosts s)"
    by auto
  assume "kind net = PublicNetworkController"
  with express_keeps [OF ex] show "map_of (PublicAddress a s1) ''private_ip'' \<noteq> None"
    by (simp add: PublicAddress_def add_host_def PublicAddress_create_def PublicAddress_save_def
        Let_def update_conv')
qed

lemma allocate_ip_again:
  assumes alloc: "allocate_ip net fl user project mac s = (Inr a, s1)"
    and same: "hosts s2 = hosts s"
  shows "fst (allocate_ip net fl user' project' mac' s2) = Inr a"
proof -
  from allocate_ip_head [OF alloc] obtain rest where hd: "available net fl s = Inr a # rest" ..
  then have hd2: "available net fl s2 = Inr a # rest"
    by (simp add: available_hosts_cong [OF same])
  from allocate_ip_state(3) [OF alloc]
  have "fst (express net (Some a) (add_host net user project a mac s)) = Inr ()" by simp
  then have "fst (express net (Some a) (add_host net user' project' a mac' s2)) = Inr ()"
    by (simp add: express_fst assigned_add_host split: kind.splits)
  then obtain s3 where "express net (Some a) (add_host net user' project' a mac' s2) = (Inr (), s3)"
    by (metis prod.collapse)
  then show ?thesis
    by (simp add: allocate_ip_def hd2)
qed

lemmas net_eval = run_calls_def allocate_ip_def release_ip_def available_def py_range_def
  NUM_STATIC_IPS_def getitem_def add_host_def rem_host_def express_def deexpress_def
  express_DHCP_def deexpress_DHCP_def express_Bridged_def express_cloudpipe_def
  vlan_create_def bridge_create_def start_dnsmasq_def stop_dnsmasq_def confirm_rule_def
  assigned_def empty_state_def lease_count_def dhcp_running_def Let_def

subsection \<open>The DHCP server and the lease count\<close>

text \<open>
  \<^verbatim>\<open>release_ip\<close> calls \<^verbatim>\<open>deexpress\<close> before it removes the lease, so the DHCP class's
  \<^verbatim>\<open>deexpress\<close> still counts the address that is being released: it never sees an empty
  lease set and always takes the branch that starts the server.
\<close>

lemma dhcp_release_starts_dnsmasq:
  assumes "kind net = DHCPNetwork" and "a \<in> set (assigned s)"
  shows "release_ip net a s = (Inr (), rem_host net a (start_dnsmasq s))"
  using assms
  by (auto simp: release_ip_def deexpress_def deexpress_DHCP_def)

text \<open>
  C1 (the DHCP server of a network runs exactly when its lease count is above 0) does
  not hold of the code. On the default subnet, from the empty state, one allocation
  returns \<open>10.0.0.3\<close>; releasing it leaves no lease, and the DHCP server running.
\<close>

theorem release_of_last_lease_leaves_dhcp_running:
  "fst (allocate_ip dhcp_net_24 default_flags ''user'' ''proj'' ''02:16:3e:00:00:01'' empty_state)
     = Inr 167772163
   \<and> lease_count (run_calls dhcp_net_24 default_flags
        [Allocate ''user'' ''proj'' ''02:16:3e:00:00:01'', Release 167772163] empty_state) = 0
   \<and> dhcp_running (run_calls dhcp_net_24 default_flags
        [Allocate ''user'' ''proj'' ''02:16:3e:00:00:01'', Release 167772163] empty_state)"
  by (simp add: net_eval)

subsection \<open>Reserved addresses\<close>

text \<open>
  C4: on a network that is not the public controller, an address that \<^verbatim>\<open>allocate_ip\<close>
  returns lies at an offset from \<open>NUM_STATIC_IPS\<close> up to, and not including,
  \<open>size - 1 - cnt_vpn_clients\<close>: never in the static block \<open>[0, NUM_STATIC_IPS)\<close>, never
  in the top block \<open>[size - 1 - cnt_vpn_clients, size)\<close>. With 256 addresses and 5 VPN
  clients the offset is in \<open>[3, 250)\<close>.
\<close>

theorem allocate_ip_outside_reserved:
  assumes base: "kind net \<noteq> PublicNetworkController"
    and ok: "allocate_ip net fl user project mac s = (Inr a, s')"
  shows "a - ip (network net) \<in> {NUM_STATIC_IPS ..< int (len (network net)) - 1 - cnt_vpn_clients fl}
     \<and> a - ip (network net) \<notin> {0 ..< NUM_STATIC_IPS}
     \<and> a - ip (network net) \<notin>
          {int (len (network net)) - 1 - cnt_vpn_clients fl ..< int (len (network net))}
     \<and> (len (network net) = 256 \<and> cnt_vpn_clients fl = 5 \<longrightarrow>
          a - ip (network net) \<in> {3 ..< 250})"
proof -
  from allocate_ip_head [OF ok] obtain rest where "available net fl s = Inr a # rest" ..
  then have "Inr a \<in> set (available_from (network net) (map fst (hosts s))
      (py_range NUM_STATIC_IPS (int (len (network net)) - (1 + cnt_vpn_clients fl))))"
    using base by (simp add: available_def)
  from available_from_Inr [OF this] obtain idx where
    idx: "NUM_STATIC_IPS \<le> idx" "idx < int (len (network net)) - (1 + cnt_vpn_clients fl)"
    and get: "getitem (network net) idx = Inr a"
    by (auto simp: py_range_def)
  from idx(1) have "0 \<le> idx" by (simp add: NUM_STATIC_IPS_def)
  from getitem_nonneg [OF this get] have "a - ip (network net) = idx" by simp
  with idx show ?thesis by (auto simp: NUM_STATIC_IPS_def)
qed

theorem allocate_ip_outside_reserved_witness:
  "fst (allocate_ip dhcp_net_24 default_flags ''user'' ''proj'' ''02:16:3e:00:00:03''
          (empty_state\<lparr>hosts := [(167772163, ''02:16:3e:00:00:01''),
                                 (167772164, ''02:16:3e:00:00:02'')]\<rparr>)) = Inr 167772165
   \<and> (167772165 :: int) - ip (network dhcp_net_24) \<in> {3 ..< 250}"
proof -
  let ?s = "empty_state\<lparr>hosts := [(167772163, ''02:16:3e:00:00:01''),
                                 (167772164, ''02:16:3e:00:00:02'')]\<rparr>"
  let ?r = "allocate_ip dhcp_net_24 default_flags ''user'' ''proj'' ''02:16:3e:00:00:03'' ?s"
  have first: "fst ?r = Inr 167772165"
    by (simp add: net_eval)
  then have ok: "?r = (Inr 167772165, snd ?r)"
    by (metis prod.collapse)
  from allocate_ip_outside_reserved [OF _ ok]
  have "(167772165 :: int) - ip (network dhcp_net_24) \<in> {3 ..< 250}"
    by simp
  with first show ?thesis by blast
qed

subsection \<open>Release\<close>

text \<open>
  C5: \<^verbatim>\<open>release_ip\<close> of an address that is not leased raises \<^verbatim>\<open>AddressNotAllocated\<close>
  and changes nothing in the state. For a leased address it runs \<^verbatim>\<open>deexpress\<close> in the
  state that still holds the lease and then removes the lease; when \<^verbatim>\<open>deexpress\<close> does
  not raise (it can only raise in the public controller, on a record without a
  \<^verbatim>\<open>private_ip\<close> field) the call succeeds and the lease mapping is the old one without
  the address.
\<close>

theorem release_ip_checks_lease:
  "(a \<notin> set (assigned s) \<longrightarrow> release_ip net a s = (Inl AddressNotAllocated, s))
   \<and> (a \<in> set (assigned s) \<longrightarrow>
        release_ip net a s =
          (case deexpress net a s of
             (Inl e, s1) \<Rightarrow> (Inl e, s1)
           | (Inr u, s1) \<Rightarrow> (Inr (), rem_host net a s1)))
   \<and> (a \<in> set (assigned s)
        \<and> (kind net = PublicNetworkController \<longrightarrow>
              map_of (PublicAddress a s) ''private_ip'' \<noteq> None)
      \<longrightarrow> fst (release_ip net a s) = Inr ()
          \<and> hosts (snd (release_ip net a s)) = AList.delete a (hosts s)
          \<and> a \<notin> set (assigned (snd (release_ip net a s))))"
proof (intro conjI impI)
  assume "a \<notin> set (assigned s)"
  then show "release_ip net a s = (Inl AddressNotAllocated, s)"
    by (simp add: release_ip_def)
next
  assume "a \<in> set (assigned s)"
  then show "release_ip net a s =
          (case deexpress net a s of
             (Inl e, s1) \<Rightarrow> (Inl e, s1)
           | (Inr u, s1) \<Rightarrow> (Inr (), rem_host net a s1))"
    by (simp add: release_ip_def)
next
  assume h: "a \<in> set (assigned s)
        \<and> (kind net = PublicNetworkController \<longrightarrow>
              map_of (PublicAddress a s) ''private_ip'' \<noteq> None)"
  then obtain s1 where d: "deexpress net a s = (Inr (), s1)"
    using deexpress_ok by blast
  then have r: "release_ip net a s = (Inr (), rem_host net a s1)"
    using h by (simp add: release_ip_def)
  from deexpress_keeps [OF d] have k: "hosts s1 = hosts s" by simp
  show "fst (release_ip net a s) = Inr ()" by (simp add: r)
  show "hosts (snd (release_ip net a s)) = AList.delete a (hosts s)" by (simp add: r k)
  show "a \<notin> set (assigned (snd (release_ip net a s)))"
    by (simp add: r k assigned_def delete_keys)
qed

theorem release_ip_checks_lease_witness:
  "release_ip dhcp_net_24 167772164 (empty_state\<lparr>hosts := [(167772163, ''02:16:3e:00:00:01'')]\<rparr>)
     = (Inl AddressNotAllocated, empty_state\<lparr>hosts := [(167772163, ''02:16:3e:00:00:01'')]\<rparr>)
   \<and> fst (release_ip dhcp_net_24 167772163
            (empty_state\<lparr>hosts := [(167772163, ''02:16:3e:00:00:01'')]\<rparr>)) = Inr ()
   \<and> hosts (snd (release_ip dhcp_net_24 167772163
            (empty_state\<lparr>hosts := [(167772163, ''02:16:3e:00:00:01'')]\<rparr>))) = []"
proof -
  let ?s = "empty_state\<lparr>hosts := [(167772163, ''02:16:3e:00:00:01'')]\<rparr>"
  have free: "167772164 \<notin> set (assigned ?s)"
    by (simp add: assigned_def empty_state_def)
  have leased: "167772163 \<in> set (assigned ?s)
      \<and> (kind dhcp_net_24 = PublicNetworkController \<longrightarrow>
            map_of (PublicAddress 167772163 ?s) ''private_ip'' \<noteq> None)"
    by (simp add: assigned_def empty_state_def)
  from release_ip_checks_lease [where a = 167772164 and net = dhcp_net_24 and s = ?s] free
  have c1: "release_ip dhcp_net_24 167772164 ?s = (Inl AddressNotAllocated, ?s)"
    by blast
  from release_ip_checks_lease [where a = 167772163 and net = dhcp_net_24 and s = ?s] leased
  have c2: "fst (release_ip dhcp_net_24 167772163 ?s) = Inr ()
      \<and> hosts (snd (release_ip dhcp_net_24 167772163 ?s)) = AList.delete 167772163 (hosts ?s)"
    by blast
  from c1 c2 show ?thesis by (simp add: empty_state_def)
qed

subsection \<open>Allocate, then release\<close>

text \<open>
  C6: when \<^verbatim>\<open>allocate_ip\<close> returns an address, \<^verbatim>\<open>release_ip\<close> of that address succeeds;
  afterwards the address is not in the lease mapping (the mapping is what it was before
  the allocation), the address is among those \<^verbatim>\<open>available\<close> yields, and the next
  \<^verbatim>\<open>allocate_ip\<close> returns it again.
\<close>

theorem allocate_release_roundtrip:
  assumes alloc: "allocate_ip net fl user project mac s = (Inr a, s1)"
  shows "fst (release_ip net a s1) = Inr ()
     \<and> a \<notin> set (assigned (snd (release_ip net a s1)))
     \<and> Inr a \<in> set (available net fl (snd (release_ip net a s1)))
     \<and> hosts (snd (release_ip net a s1)) = hosts s
     \<and> fst (allocate_ip net fl user' project' mac' (snd (release_ip net a s1))) = Inr a"
proof -
  note st = allocate_ip_state [OF alloc]
  from st(2) obtain t where h1: "hosts s1 = AList.update a t (hosts s)" ..
  then have leased: "a \<in> set (assigned s1)"
    by (simp add: assigned_def dom_update)
  have rec: "kind net = PublicNetworkController \<longrightarrow>
      map_of (PublicAddress a s1) ''private_ip'' \<noteq> None"
    using st(4) by simp
  obtain s1' where d: "deexpress net a s1 = (Inr (), s1')"
    using deexpress_ok [OF leased rec] ..
  then have r: "release_ip net a s1 = (Inr (), rem_host net a s1')"
    using leased by (simp add: release_ip_def)
  from deexpress_keeps [OF d] have k: "hosts s1' = hosts s1" by simp
  have "a \<notin> fst ` set (hosts s)" using st(1) by (simp add: assigned_def)
  then have restored: "hosts (snd (release_ip net a s1)) = hosts s"
    by (simp add: r k h1 delete_update_same)
  from allocate_ip_head [OF alloc] obtain rest where "available net fl s = Inr a # rest" ..
  then have "Inr a \<in> set (available net fl (snd (release_ip net a s1)))"
    by (simp add: available_hosts_cong [OF restored])
  moreover have "a \<notin> set (assigned (snd (release_ip net a s1)))"
    using st(1) restored by (simp add: assigned_def)
  moreover have "fst (allocate_ip net fl user' project' mac' (snd (release_ip net a s1))) = Inr a"
    using alloc restored by (rule allocate_ip_again)
  ultimately show ?thesis using restored by (simp add: r)
qed

theorem allocate_release_roundtrip_witness:
  "fst (allocate_ip dhcp_net_24 default_flags ''user'' ''proj'' ''02:16:3e:00:00:01'' empty_state)
     = Inr 167772163
   \<and> fst (release_ip dhcp_net_24 167772163
        (snd (allocate_ip dhcp_net_24 default_flags ''user'' ''proj'' ''02:16:3e:00:00:01''
               empty_state))) = Inr ()
   \<and> hosts (snd (release_ip dhcp_net_24 167772163
        (snd (allocate_ip dhcp_net_24 default_flags ''user'' ''proj'' ''02:16:3e:00:00:01''
               empty_state)))) = []"
proof -
  let ?r = "allocate_ip dhcp_net_24 default_flags ''user'' ''proj'' ''02:16:3e:00:00:01''
      empty_state"
  have first: "fst ?r = Inr 167772163"
    by (simp add: net_eval)
  then have ok: "?r = (Inr 167772163, snd ?r)"
    by (metis prod.collapse)
  from allocate_release_roundtrip [OF ok]
  have "fst (release_ip dhcp_net_24 167772163 (snd ?r)) = Inr ()
      \<and> hosts (snd (release_ip dhcp_net_24 167772163 (snd ?r))) = hosts empty_state"
    by blast
  with first show ?thesis
    by (simp add: empty_state_def)
qed

subsection \<open>The VPN slot\<close>



text \<open>
  When the project of the network no longer exists, the slot's lease is written and
  the call then raises, in the middle of the activation.
\<close>

lemma allocate_vpn_ip_project_gone:
  "allocate_vpn_ip (dhcp_net_24\<lparr>project_obj := None\<rparr>) ''user'' ''proj'' ''02:16:3e:00:00:09''
     empty_state =
   (Inl AttributeError,
    empty_state\<lparr>hosts := [(167772162, ''02:16:3e:00:00:09'')],
                vlan_created := True, bridge_created := True,
                dnsmasq := Some [(167772162, ''02:16:3e:00:00:09'')],
                rules := [Forward_vpn 167772162]\<rparr>)"
  by (simp add: allocate_vpn_ip_def getitem_def express_DHCP_def express_Bridged_def
      express_cloudpipe_def vlan_create_def bridge_create_def start_dnsmasq_def
      confirm_rule_def assigned_def empty_state_def Let_def)


section \<open>Properties of the public pool\<close>

subsection \<open>Which public addresses can be allocated\<close>

text \<open>
  C8, as the claim states it, fails: in the empty default public pool the address at
  offset 1, \<open>4.4.4.1\<close>, is not leased and yet is not among the addresses \<^verbatim>\<open>available\<close>
  yields; the first allocation returns offset 2, \<open>4.4.4.2\<close>.
\<close>

theorem public_pool_offset_1_counterexample:
  "67372033 \<notin> set (assigned empty_state)
   \<and> Inr 67372033 \<notin> set (available public_net_24 default_flags empty_state)
   \<and> fst (allocate_ip public_net_24 default_flags ''user'' ''proj'' ''mac'' empty_state)
       = Inr 67372034"
  by (simp add: public_available assigned_def empty_state_def allocate_ip_def
       express_def express_Public_def get_host_def add_host_def PublicAddress_create_def
       PublicAddress_save_def Let_def upto_rec1 [of 2 254] split: prod.splits)

text \<open>
  C8, amended: the public pool reserves three addresses, the offsets 0, 1 and
  \<open>size - 1\<close>. The addresses \<^verbatim>\<open>available\<close> yields are exactly those at the offsets
  \<open>[2, size - 1)\<close> that are not leased, and the scan never raises.
\<close>

theorem public_available_offsets:
  assumes "kind net = PublicNetworkController"
  shows "(Inr a \<in> set (available net fl s) \<longleftrightarrow>
            a - ip (network net) \<in> {2 ..< int (len (network net)) - 1}
            \<and> a \<notin> set (assigned s))
         \<and> Inl e \<notin> set (available net fl s)"
proof -
  have "a \<in> (\<lambda>idx. ip (network net) + idx) ` {2 .. int (len (network net)) - 2}
      \<longleftrightarrow> a - ip (network net) \<in> {2 ..< int (len (network net)) - 1}"
    by (auto simp: image_iff intro: bexI [of _ "a - ip (network net)"])
  then show ?thesis
    by (auto simp: public_available [OF assms])
qed

theorem public_available_offsets_witness:
  "Inr 67372035 \<in> set (available public_net_24 default_flags
      (empty_state\<lparr>hosts := [(67372034, ''proj'')]\<rparr>))
   \<and> Inr 67372034 \<notin> set (available public_net_24 default_flags
      (empty_state\<lparr>hosts := [(67372034, ''proj'')]\<rparr>))
   \<and> Inr 67372033 \<notin> set (available public_net_24 default_flags
      (empty_state\<lparr>hosts := [(67372034, ''proj'')]\<rparr>))"
proof -
  let ?s = "empty_state\<lparr>hosts := [(67372034, ''proj'')]\<rparr>"
  have k: "kind public_net_24 = PublicNetworkController" by simp
  have leases: "assigned ?s = [67372034]" by (simp add: assigned_def empty_state_def)
  from public_available_offsets [OF k, where a = 67372035 and s = ?s and fl = default_flags]
  have c1: "Inr 67372035 \<in> set (available public_net_24 default_flags ?s)"
    by (simp add: leases)
  from public_available_offsets [OF k, where a = 67372034 and s = ?s and fl = default_flags]
  have c2: "Inr 67372034 \<notin> set (available public_net_24 default_flags ?s)"
    by (simp add: leases)
  from public_available_offsets [OF k, where a = 67372033 and s = ?s and fl = default_flags]
  have c3: "Inr 67372033 \<notin> set (available public_net_24 default_flags ?s)"
    by (simp add: leases)
  from c1 c2 c3 show ?thesis by blast
qed

subsection \<open>Association\<close>

lemma associate_success:
  assumes "associate_address public_ip private_ip inst s = (Inr (), s')"
  shows "public_ip \<in> set (assigned s)"
    and "hosts s' = hosts s"
    and "addresses s' = AList.update public_ip
           (AList.update ''instance_id'' inst
              (AList.update ''private_ip'' private_ip (PublicAddress public_ip s)))
           (addresses s)"
    and "dict_get (PublicAddress public_ip s) ''private_ip'' ''available'' = ''available''"
proof -
  show leased: "public_ip \<in> set (assigned s)"
    using assms by (auto simp: associate_address_def split: if_splits)
  let ?s1 = "PublicAddress_save public_ip
        (AList.update ''instance_id'' inst
           (AList.update ''private_ip'' private_ip (PublicAddress public_ip s))) s"
  from assms leased have ex: "express_Public (Some public_ip) ?s1 = (Inr (), s')"
    and av: "dict_get (PublicAddress public_ip s) ''private_ip'' ''available'' = ''available''"
    by (auto simp: associate_address_def get_host_def Let_def split: if_splits)
  show "dict_get (PublicAddress public_ip s) ''private_ip'' ''available'' = ''available''"
    by (rule av)
  from ex have s': "s' = snd (express_Public (Some public_ip) ?s1)" by simp
  show "hosts s' = hosts s"
    and "addresses s' = AList.update public_ip
           (AList.update ''instance_id'' inst
              (AList.update ''private_ip'' private_ip (PublicAddress public_ip s)))
           (addresses s)"
    by (simp_all add: s' PublicAddress_save_def)
qed

lemma associate_binds:
  assumes "associate_address public_ip private_ip inst s = (Inr (), s')"
  shows "public_ip \<in> set (assigned s')"
    and "map_of (PublicAddress public_ip s') ''private_ip'' = Some private_ip"
    and "set (assigned s') = set (assigned s)"
proof -
  note st = associate_success [OF assms]
  show "public_ip \<in> set (assigned s')" "set (assigned s') = set (assigned s)"
    using st(1,2) by (simp_all add: assigned_def)
  show "map_of (PublicAddress public_ip s') ''private_ip'' = Some private_ip"
    by (simp add: PublicAddress_def st(3) update_conv')
qed

text \<open>
  In a state where every leased address has its record, associating the sentinel
  \<^verbatim>\<open>'available'\<close> never succeeds: it is either what the address's own record holds
  (found by the scan) or the address is bound already.
\<close>

lemma associate_sentinel_fails:
  assumes "records_ok s"
  shows "associate_address public_ip ''available'' inst s \<noteq> (Inr (), s')"
proof
  assume ok: "associate_address public_ip ''available'' inst s = (Inr (), s')"
  note st = associate_success [OF ok]
  from assms st(1) obtain x where x: "map_of (PublicAddress public_ip s) ''private_ip'' = Some x"
    by (auto simp: records_ok_def)
  with st(4) have "x = ''available''" by (simp add: dict_get_def)
  with x st(1)
  have "\<exists>a \<in> set (assigned s). map_of (PublicAddress a s) ''private_ip'' = Some ''available''"
    by blast
  with ok st(1) show False
    by (simp add: associate_address_def)
qed

text \<open>
  C7: \<^verbatim>\<open>associate_address\<close> raises \<^verbatim>\<open>AddressNotAllocated\<close> when the public address is
  not leased. For a leased public address it raises \<^verbatim>\<open>AddressAlreadyAssociated\<close> when
  the record of some leased address already holds the private address, and when the
  public address's own record holds a private address other than \<^verbatim>\<open>'available'\<close>. In
  each case the state is unchanged. After a successful association, a second
  association of the same public address raises \<^verbatim>\<open>AddressAlreadyAssociated\<close> (for a
  private address that is not the sentinel \<^verbatim>\<open>'available'\<close>, or in any state where
  every leased address has its record), and so does the association of any other
  leased public address to the same private address.
\<close>

theorem associate_address_errors:
  "(public_ip \<notin> set (assigned s) \<longrightarrow>
      associate_address public_ip private_ip inst s = (Inl AddressNotAllocated, s))
   \<and> (public_ip \<in> set (assigned s)
        \<and> (\<exists>a \<in> set (assigned s). map_of (PublicAddress a s) ''private_ip'' = Some private_ip)
      \<longrightarrow> associate_address public_ip private_ip inst s = (Inl AddressAlreadyAssociated, s))
   \<and> (public_ip \<in> set (assigned s)
        \<and> dict_get (PublicAddress public_ip s) ''private_ip'' ''available'' \<noteq> ''available''
      \<longrightarrow> associate_address public_ip private_ip inst s = (Inl AddressAlreadyAssociated, s))
   \<and> (associate_address public_ip private_ip inst s = (Inr (), s')
        \<and> (private_ip \<noteq> ''available'' \<or> records_ok s)
      \<longrightarrow> associate_address public_ip private_ip' inst' s' = (Inl AddressAlreadyAssociated, s'))
   \<and> (associate_address public_ip private_ip inst s = (Inr (), s')
        \<and> other \<in> set (assigned s)
      \<longrightarrow> associate_address other private_ip inst' s' = (Inl AddressAlreadyAssociated, s'))"
proof (intro conjI impI)
  assume "public_ip \<notin> set (assigned s)"
  then show "associate_address public_ip private_ip inst s = (Inl AddressNotAllocated, s)"
    by (simp add: associate_address_def)
next
  assume "public_ip \<in> set (assigned s)
        \<and> (\<exists>a \<in> set (assigned s). map_of (PublicAddress a s) ''private_ip'' = Some private_ip)"
  then show "associate_address public_ip private_ip inst s = (Inl AddressAlreadyAssociated, s)"
    by (simp add: associate_address_def)
next
  assume "public_ip \<in> set (assigned s)
        \<and> dict_get (PublicAddress public_ip s) ''private_ip'' ''available'' \<noteq> ''available''"
  then show "associate_address public_ip private_ip inst s = (Inl AddressAlreadyAssociated, s)"
    by (simp add: associate_address_def get_host_def)
next
  assume h: "associate_address public_ip private_ip inst s = (Inr (), s')
        \<and> (private_ip \<noteq> ''available'' \<or> records_ok s)"
  then have ok: "associate_address public_ip private_ip inst s = (Inr (), s')" by simp
  from h associate_sentinel_fails [of s public_ip inst s']
  have real: "private_ip \<noteq> ''available''" by auto
  note b = associate_binds [OF ok]
  from b(2) real
  have "dict_get (PublicAddress public_ip s') ''private_ip'' ''available'' \<noteq> ''available''"
    by (simp add: dict_get_def)
  with b(1)
  show "associate_address public_ip private_ip' inst' s' = (Inl AddressAlreadyAssociated, s')"
    by (simp add: associate_address_def get_host_def)
next
  assume h: "associate_address public_ip private_ip inst s = (Inr (), s')
        \<and> other \<in> set (assigned s)"
  then have ok: "associate_address public_ip private_ip inst s = (Inr (), s')" by simp
  note b = associate_binds [OF ok]
  from h b(3) have "other \<in> set (assigned s')" by simp
  moreover from b(1,2)
  have "\<exists>a \<in> set (assigned s'). map_of (PublicAddress a s') ''private_ip'' = Some private_ip"
    by blast
  ultimately
  show "associate_address other private_ip inst' s' = (Inl AddressAlreadyAssociated, s')"
    by (simp add: associate_address_def)
qed

lemmas public_eval = associate_address_def assigned_def empty_state_def PublicAddress_def
  dict_get_def get_host_def express_Public_def express_addr_def PublicAddress_save_def
  bind_public_ip_def confirm_rule_def DEFAULT_PORTS_def Let_def

lemma two_public_leases_reached:
  "run_calls public_net_24 default_flags
     [Allocate ''user'' ''proj'' ''02:16:3e:00:00:01'',
      Allocate ''user'' ''proj'' ''02:16:3e:00:00:02''] empty_state
   = two_public_leases"
  by (simp add: run_calls_def allocate_ip_def public_available assigned_def empty_state_def
      add_host_def PublicAddress_create_def PublicAddress_save_def PublicAddress_def
      express_def express_Public_def express_addr_def get_host_def dict_get_def Let_def
      upto_rec1 [of 2 254] upto_rec1 [of 3 254])

theorem associate_address_errors_witness:
  "associate_address 67372036 ''10.0.0.3'' ''i-1'' two_public_leases
     = (Inl AddressNotAllocated, two_public_leases)
   \<and> fst (associate_address 67372034 ''10.0.0.3'' ''i-1'' two_public_leases) = Inr ()
   \<and> fst (associate_address 67372034 ''10.0.0.4'' ''i-2''
        (snd (associate_address 67372034 ''10.0.0.3'' ''i-1'' two_public_leases)))
       = Inl AddressAlreadyAssociated
   \<and> fst (associate_address 67372035 ''10.0.0.3'' ''i-2''
        (snd (associate_address 67372034 ''10.0.0.3'' ''i-1'' two_public_leases)))
       = Inl AddressAlreadyAssociated"
proof -
  let ?s = two_public_leases
  let ?r = "associate_address 67372034 ''10.0.0.3'' ''i-1'' ?s"
  have leases: "assigned ?s = [67372034, 67372035]"
    by (simp add: assigned_def empty_state_def)
  have first: "fst ?r = Inr ()"
    by (simp add: public_eval)
  then have ok: "?r = (Inr (), snd ?r)"
    by (metis prod.collapse)
  have real: "''10.0.0.3'' \<noteq> ''available''" by simp
  from associate_address_errors [where public_ip = 67372036 and private_ip = "''10.0.0.3''"
      and inst = "''i-1''" and s = ?s]
  have c1: "associate_address 67372036 ''10.0.0.3'' ''i-1'' ?s = (Inl AddressNotAllocated, ?s)"
    by (simp add: leases)
  from associate_address_errors [where public_ip = 67372034 and private_ip = "''10.0.0.3''"
      and inst = "''i-1''" and s = ?s and s' = "snd ?r" and private_ip' = "''10.0.0.4''"
      and inst' = "''i-2''" and other = 67372035] ok real
  have c2: "associate_address 67372034 ''10.0.0.4'' ''i-2'' (snd ?r)
      = (Inl AddressAlreadyAssociated, snd ?r)"
    by blast
  from associate_address_errors [where public_ip = 67372034 and private_ip = "''10.0.0.3''"
      and inst = "''i-1''" and s = ?s and s' = "snd ?r" and private_ip' = "''10.0.0.4''"
      and inst' = "''i-2''" and other = 67372035] ok leases
  have c3: "associate_address 67372035 ''10.0.0.3'' ''i-2'' (snd ?r)
      = (Inl AddressAlreadyAssociated, snd ?r)"
    by simp
  from c1 first c2 c3 show ?thesis by simp
qed

subsection \<open>Every leased public address keeps its record\<close>

lemma records_ok_empty: "records_ok empty_state"
  by (simp add: records_ok_def assigned_def empty_state_def)

lemma records_ok_cong:
  "hosts s' = hosts s \<Longrightarrow> addresses s' = addresses s \<Longrightarrow> records_ok s' = records_ok s"
  by (simp add: records_ok_def assigned_def PublicAddress_def)

lemma records_ok_add_host:
  assumes "records_ok s" and "kind net = PublicNetworkController"
  shows "records_ok (add_host net user project a mac s)"
  using assms
  by (auto simp: records_ok_def assigned_def add_host_def PublicAddress_create_def
      PublicAddress_save_def PublicAddress_def Let_def dom_update update_conv')

lemma records_ok_allocate_ip:
  assumes "records_ok s" and "kind net = PublicNetworkController"
  shows "records_ok (snd (allocate_ip net fl user project mac s))"
proof (cases "available net fl s")
  case Nil
  with assms show ?thesis by (simp add: allocate_ip_def)
next
  case (Cons x xs)
  show ?thesis
  proof (cases x)
    case (Inl e)
    with Cons assms show ?thesis by (simp add: allocate_ip_def)
  next
    case (Inr a)
    let ?s0 = "add_host net user project a mac s"
    have "snd (allocate_ip net fl user project mac s) = snd (express net (Some a) ?s0)"
      using Cons Inr by (simp add: allocate_ip_def split: prod.splits sum.splits)
    moreover have "records_ok (snd (express net (Some a) ?s0)) = records_ok ?s0"
      by (rule records_ok_cong) simp_all
    ultimately show ?thesis using records_ok_add_host [OF assms] by simp
  qed
qed

lemma records_ok_rem_host:
  assumes "records_ok s" and "kind net = PublicNetworkController"
  shows "records_ok (rem_host net a s)"
  using assms
  by (auto simp: records_ok_def assigned_def rem_host_def PublicAddress_destroy_def
      PublicAddress_def delete_keys delete_conv')

lemma records_ok_release_ip:
  assumes "records_ok s" and "kind net = PublicNetworkController"
  shows "records_ok (snd (release_ip net a s))"
proof (cases "a \<in> set (assigned s)")
  case False
  with assms show ?thesis by (simp add: release_ip_def)
next
  case True
  have k: "records_ok (snd (deexpress net a s)) = records_ok s"
    by (rule records_ok_cong) simp_all
  show ?thesis
  proof (cases "deexpress net a s")
    case (Pair r s1)
    with k assms have ok1: "records_ok s1" by simp
    show ?thesis
      using True Pair ok1 records_ok_rem_host [OF ok1 assms(2)] assms(1)
      by (cases r) (simp_all add: release_ip_def)
  qed
qed

lemma records_ok_associate:
  assumes "records_ok s"
  shows "records_ok (snd (associate_address public_ip private_ip inst s))"
proof (cases "associate_address public_ip private_ip inst s")
  case (Pair r s')
  show ?thesis
  proof (cases r)
    case (Inl e)
    with Pair have "s' = s"
      by (auto simp: associate_address_def get_host_def Let_def express_Public_def
          assigned_def split: if_splits)
    with Pair assms show ?thesis by simp
  next
    case (Inr u)
    with Pair have ok: "associate_address public_ip private_ip inst s = (Inr (), s')" by simp
    note st = associate_success [OF ok]
    from assms show ?thesis
      by (auto simp: Pair records_ok_def assigned_def st(2) st(3) PublicAddress_def
          update_conv')
  qed
qed

end
